theory Spec2Isabelle
  imports Complex_Main
begin

section \<open>Data model of \<^verbatim>\<open>src/WrenchPanel.tsx\<close>\<close>

text \<open>
  The TypeScript interfaces become records. A JavaScript \<^verbatim>\<open>number\<close> is a value of
  type real that the frame store only copies. The single arithmetic expression of the
  modelled code, the timestamp \<^verbatim>\<open>sec * 1e9 + nsec\<close> of line 192, is evaluated by
  JavaScript in double precision and rounds; it is not computed in the reals here but
  taken as a parameter of the store (see \<open>update_entry\<close>). Field names follow the
  source; a prefix is added where two interfaces share a field name.
\<close>

record Vector3 =
  vx :: real
  vy :: real
  vz :: real

record Quaternion =
  qx :: real
  qy :: real
  qz :: real
  qw :: real

record Transform =
  translation :: Vector3
  rotation :: Quaternion

record Stamp =
  sec :: real
  nsec :: real

record Header =
  hdr_frame_id :: string
  stamp :: Stamp

record TransformStamped =
  header :: Header
  child_frame_id :: string
  ts_transform :: Transform

record TFMessage =
  transforms :: "TransformStamped list"

record TFMessageEvent =
  message :: TFMessage

text \<open>
  \<^verbatim>\<open>parent_frame_id?: string\<close> is an optional field: \<open>None\<close> is the absent
  (undefined) parent of a root node.
\<close>

record TFTreeNode =
  frame_id :: string
  parent_frame_id :: "string option"
  transform :: Transform
  timestamp :: real

text \<open>
  \<^verbatim>\<open>Map<string, TFTreeNode>\<close> iterates in insertion order, and \<^verbatim>\<open>set\<close> on a key
  that is present keeps the key's position. The map is therefore an association list:
  \<^verbatim>\<open>forEach\<close> walks it front to back, \<^verbatim>\<open>get\<close> and \<^verbatim>\<open>has\<close> find the entry of
  a key.
\<close>

type_synonym TFTree = "(string \<times> TFTreeNode) list"

definition tree_get :: "TFTree \<Rightarrow> string \<Rightarrow> TFTreeNode option" where
  "tree_get tree k = map_of tree k"

definition tree_has :: "TFTree \<Rightarrow> string \<Rightarrow> bool" where
  "tree_has tree k = (k \<in> set (map fst tree))"

fun tree_set :: "string \<Rightarrow> TFTreeNode \<Rightarrow> TFTree \<Rightarrow> TFTree" where
  "tree_set k v [] = [(k, v)]"
| "tree_set k v ((k', v') # rest) =
     (if k' = k then (k, v) # rest else (k', v') # tree_set k v rest)"

definition identity_transform :: Transform where
  "identity_transform =
     \<lparr> translation = \<lparr> vx = 0, vy = 0, vz = 0 \<rparr>,
       rotation = \<lparr> qx = 0, qy = 0, qz = 0, qw = 1 \<rparr> \<rparr>"


section \<open>\<^verbatim>\<open>updateTFTree\<close>: the frame graph store\<close>

text \<open>
  The body of the inner \<^verbatim>\<open>forEach\<close> (lines 189--213): the child node is written
  first, and the test \<^verbatim>\<open>!newTree.has(parentFrame)\<close> reads the map after that write.
  The parameter \<open>nanos\<close> is the double-precision computation of line 192:
  \<open>nanos s n\<close> is the number that \<^verbatim>\<open>s * 1e9 + n\<close> evaluates to. Nothing is assumed
  about it; both nodes of an entry receive the one value it returns.
\<close>

definition update_entry ::
  "(real \<Rightarrow> real \<Rightarrow> real) \<Rightarrow> TransformStamped \<Rightarrow> TFTree \<Rightarrow> TFTree"
where
  "update_entry nanos tf newTree =
     (let parentFrame = hdr_frame_id (header tf);
          childFrame = child_frame_id tf;
          ts = nanos (sec (stamp (header tf))) (nsec (stamp (header tf)));
          newTree1 = tree_set childFrame
            \<lparr> frame_id = childFrame, parent_frame_id = Some parentFrame,
              transform = ts_transform tf, timestamp = ts \<rparr> newTree
      in if \<not> tree_has newTree1 parentFrame
         then tree_set parentFrame
            \<lparr> frame_id = parentFrame, parent_frame_id = None,
              transform = identity_transform, timestamp = ts \<rparr> newTree1
         else newTree1)"

text \<open>
  \<^verbatim>\<open>updateTFTree\<close> (lines 184--218) copies the previous map and runs the two nested
  \<^verbatim>\<open>forEach\<close> loops; the new map is the next state.
\<close>

definition updateTFTree ::
  "(real \<Rightarrow> real \<Rightarrow> real) \<Rightarrow> TFMessageEvent list \<Rightarrow> TFTree \<Rightarrow> TFTree"
where
  "updateTFTree nanos newTfMessages prevTree =
     fold (\<lambda>tfMsg newTree. fold (update_entry nanos) (transforms (message tfMsg)) newTree)
       newTfMessages prevTree"


section \<open>\<^verbatim>\<open>findTransformPath\<close>: the path resolver\<close>

text \<open>
  One call of the \<^verbatim>\<open>forEach\<close> callback of lines 244--254, for the dequeued
  \<open>frame\<close> with its \<open>path\<close>: the entries it pushes, in order. \<open>visited\<close> already holds
  \<open>frame\<close> when the callback runs.
\<close>

definition push_node ::
  "string \<Rightarrow> string list \<Rightarrow> string set \<Rightarrow> string \<times> TFTreeNode \<Rightarrow> (string \<times> string list) list"
where
  "push_node frame path visited entry =
     (let nodeFrameId = fst entry; node = snd entry in
        (if parent_frame_id node = Some frame \<and> nodeFrameId \<notin> visited
         then [(nodeFrameId, path @ [nodeFrameId])] else [])
      @ (if Some nodeFrameId = parent_frame_id node \<and> frame_id node = frame
            \<and> nodeFrameId \<notin> visited
         then [(nodeFrameId, path @ [nodeFrameId])] else []))"

definition push_all ::
  "TFTree \<Rightarrow> string \<Rightarrow> string list \<Rightarrow> string set \<Rightarrow> (string \<times> string list) list"
where
  "push_all tree frame path visited = concat (map (push_node frame path visited) tree)"

text \<open>
  The \<^verbatim>\<open>while (queue.length > 0)\<close> loop of lines 230--255, on the loop state
  (\<open>visited\<close>, \<open>queue\<close>). The empty list is the source's \<^verbatim>\<open>return []\<close>.
\<close>

function bfs ::
  "TFTree \<Rightarrow> string \<Rightarrow> string set \<Rightarrow> (string \<times> string list) list \<Rightarrow> string list"
where
  "bfs tree targetFrame visited [] = []"
| "bfs tree targetFrame visited ((frame, path) # queue) =
     (if frame = targetFrame then path
      else if frame \<in> visited then bfs tree targetFrame visited queue
      else bfs tree targetFrame (insert frame visited)
             (queue @ push_all tree frame path (insert frame visited)))"
  by pat_completeness auto

definition bfs_size ::
  "TFTree \<times> string \<times> string set \<times> (string \<times> string list) list \<Rightarrow> nat"
where
  "bfs_size = (\<lambda>(tree, targetFrame, visited, queue).
     card ((set (map fst tree) \<union> set (map fst queue)) - visited))"

text \<open>
  The loop ends: \<open>bfs_size\<close> counts the frames (keys of the map, frames in the queue)
  that are not yet visited. Skipping a visited frame keeps the count and shortens the
  queue; expanding a frame marks it visited and pushes keys of the map only, so the
  count drops.
\<close>

termination bfs
proof (relation "measures [bfs_size, \<lambda>(tree, targetFrame, visited, queue). length queue]",
    goal_cases)
  case 1
  show ?case by simp
next
  case (2 tree targetFrame visited frame path queue)
  then have "(set (map fst tree) \<union> set (map fst queue)) - visited
      = (set (map fst tree) \<union> set (map fst ((frame, path) # queue))) - visited"
    by auto
  then have "bfs_size (tree, targetFrame, visited, queue)
      = bfs_size (tree, targetFrame, visited, (frame, path) # queue)"
    by (simp add: bfs_size_def)
  then show ?case by simp
next
  case (3 tree targetFrame visited frame path queue)
  let ?pushed = "push_all tree frame path (insert frame visited)"
  let ?new = "(set (map fst tree) \<union> set (map fst (queue @ ?pushed))) - insert frame visited"
  let ?old = "(set (map fst tree) \<union> set (map fst ((frame, path) # queue))) - visited"
  have "set (map fst ?pushed) \<subseteq> set (map fst tree)"
    by (auto simp: push_all_def push_node_def Let_def split: if_splits) force+
  then have sub: "?new \<subseteq> ?old" by auto
  have "frame \<in> ?old" "frame \<notin> ?new" using 3 by auto
  with sub have "?new \<subset> ?old" by blast
  moreover have "finite ?old" by simp
  ultimately have "card ?new < card ?old" by (rule psubset_card_mono [rotated])
  then have "bfs_size (tree, targetFrame, insert frame visited, queue @ ?pushed)
      < bfs_size (tree, targetFrame, visited, (frame, path) # queue)"
    unfolding bfs_size_def prod.case .
  then show ?case by simp
qed

definition findTransformPath :: "TFTree \<Rightarrow> string \<Rightarrow> string \<Rightarrow> string list" where
  "findTransformPath tfTree sourceFrame targetFrame =
     (if sourceFrame = targetFrame then [sourceFrame]
      else bfs tfTree targetFrame {} [(sourceFrame, [sourceFrame])])"


section \<open>\<^verbatim>\<open>computeTransform\<close>: the transform composer\<close>

text \<open>
  \<^verbatim>\<open>THREE.Matrix4\<close> belongs to the three.js library, which is not part of the
  repository. Its operations are parameters of the model: the matrix type \<open>'m\<close>, the
  identity matrix, \<^verbatim>\<open>compose\<close> with scale \<open>(1, 1, 1)\<close>, \<^verbatim>\<open>invert\<close>, \<^verbatim>\<open>multiply\<close>
  and \<^verbatim>\<open>decompose\<close> (position, quaternion, scale).
\<close>

record 'm Matrix4_ops =
  m4_identity :: 'm
  m4_compose :: "Vector3 \<Rightarrow> Quaternion \<Rightarrow> Vector3 \<Rightarrow> 'm"
  m4_invert :: "'m \<Rightarrow> 'm"
  m4_multiply :: "'m \<Rightarrow> 'm \<Rightarrow> 'm"
  m4_decompose :: "'m \<Rightarrow> Vector3 \<times> Quaternion \<times> Vector3"

text \<open>
  Lines 285--300: the transform of the edge between \<open>fromFrame\<close> and \<open>toFrame\<close> with
  the \<^verbatim>\<open>inverse\<close> flag, \<open>None\<close> when \<^verbatim>\<open>transform\<close> stays \<^verbatim>\<open>null\<close>.
\<close>

definition edge_transform :: "TFTree \<Rightarrow> string \<Rightarrow> string \<Rightarrow> (Transform \<times> bool) option" where
  "edge_transform tfTree fromFrame toFrame =
     (case tree_get tfTree toFrame of
        Some toNode \<Rightarrow>
          if parent_frame_id toNode = Some fromFrame then Some (transform toNode, False)
          else (case tree_get tfTree fromFrame of
                  Some fromNode \<Rightarrow>
                    if parent_frame_id fromNode = Some toFrame
                    then Some (transform fromNode, True) else None
                | None \<Rightarrow> None)
      | None \<Rightarrow>
          (case tree_get tfTree fromFrame of
             Some fromNode \<Rightarrow>
               if parent_frame_id fromNode = Some toFrame
               then Some (transform fromNode, True) else None
           | None \<Rightarrow> None))"

text \<open>
  The \<^verbatim>\<open>for\<close> loop of lines 280--333 over the consecutive pairs of the path;
  \<open>None\<close> is the \<^verbatim>\<open>return null\<close> of line 303.
\<close>

fun walk_path :: "'m Matrix4_ops \<Rightarrow> TFTree \<Rightarrow> 'm \<Rightarrow> string list \<Rightarrow> 'm option" where
  "walk_path ops tfTree resultTransform (fromFrame # toFrame # rest) =
     (case edge_transform tfTree fromFrame toFrame of
        None \<Rightarrow> None
      | Some (tf, inverted) \<Rightarrow>
          (let mat = m4_compose ops (translation tf) (rotation tf) \<lparr> vx = 1, vy = 1, vz = 1 \<rparr>;
               mat1 = (if inverted then m4_invert ops mat else mat)
           in walk_path ops tfTree (m4_multiply ops resultTransform mat1) (toFrame # rest)))"
| "walk_path ops tfTree resultTransform path = Some resultTransform"

definition computeTransform ::
  "'m Matrix4_ops \<Rightarrow> TFTree \<Rightarrow> string \<Rightarrow> string \<Rightarrow> Transform option"
where
  "computeTransform ops tfTree sourceFrame targetFrame =
     (if sourceFrame = targetFrame then Some identity_transform
      else
        (let path = findTransformPath tfTree sourceFrame targetFrame in
           if length path < 2 then None
           else (case walk_path ops tfTree (m4_identity ops) path of
                   None \<Rightarrow> None
                 | Some resultTransform \<Rightarrow>
                     (case m4_decompose ops resultTransform of
                        (position, quaternion, scale) \<Rightarrow>
                          Some \<lparr> translation =
                                   \<lparr> vx = vx position, vy = vy position, vz = vz position \<rparr>,
                                 rotation =
                                   \<lparr> qx = qx quaternion, qy = qy quaternion,
                                     qz = qz quaternion, qw = qw quaternion \<rparr> \<rparr>))))"


section \<open>The store contract, in the specification's words\<close>

text \<open>
  The specification describes the store on updates \<open>(child, parent, transform,
  timestamp)\<close> and a mapping from frame identifier to node: each entry of a batch, in
  input order, overwrites the child's node and then inserts the parent as a root node
  with the identity transform and the same timestamp if the parent is not a key. These
  definitions follow that wording; they are compared with \<open>updateTFTree\<close> below.
\<close>

type_synonym Update = "string \<times> string \<times> Transform \<times> real"

type_synonym FrameGraph = "string \<rightharpoonup> TFTreeNode"

definition apply_update_spec :: "Update \<Rightarrow> FrameGraph \<Rightarrow> FrameGraph" where
  "apply_update_spec u g =
     (case u of (child, parent, tf, ts) \<Rightarrow>
        (let g1 = g(child \<mapsto> \<lparr> frame_id = child, parent_frame_id = Some parent,
                                transform = tf, timestamp = ts \<rparr>)
         in if parent \<in> dom g1 then g1
            else g1(parent \<mapsto> \<lparr> frame_id = parent, parent_frame_id = None,
                                  transform = identity_transform, timestamp = ts \<rparr>)))"

fun apply_updates_spec :: "Update list \<Rightarrow> FrameGraph \<Rightarrow> FrameGraph" where
  "apply_updates_spec [] g = g"
| "apply_updates_spec (u # us) g = apply_updates_spec us (apply_update_spec u g)"

text \<open>
  The update that a \<^verbatim>\<open>TransformStamped\<close> carries, its timestamp being the number the
  code computes from the stamp (\<open>nanos\<close>, as in \<open>update_entry\<close>), and the entries of a
  batch in order.
\<close>

definition update_of :: "(real \<Rightarrow> real \<Rightarrow> real) \<Rightarrow> TransformStamped \<Rightarrow> Update"
where
  "update_of nanos tf = (child_frame_id tf, hdr_frame_id (header tf), ts_transform tf,
     nanos (sec (stamp (header tf))) (nsec (stamp (header tf))))"

definition batch_entries :: "TFMessageEvent list \<Rightarrow> TransformStamped list" where
  "batch_entries newTfMessages =
     concat (map (\<lambda>tfMsg. transforms (message tfMsg)) newTfMessages)"


section \<open>Notions used by the properties\<close>

text \<open>The two object literals of \<open>update_entry\<close>, named.\<close>

definition child_node :: "(real \<Rightarrow> real \<Rightarrow> real) \<Rightarrow> TransformStamped \<Rightarrow> TFTreeNode"
where
  "child_node nanos tf =
     \<lparr> frame_id = child_frame_id tf, parent_frame_id = Some (hdr_frame_id (header tf)),
       transform = ts_transform tf,
       timestamp = nanos (sec (stamp (header tf))) (nsec (stamp (header tf))) \<rparr>"

definition root_node :: "(real \<Rightarrow> real \<Rightarrow> real) \<Rightarrow> TransformStamped \<Rightarrow> TFTreeNode"
where
  "root_node nanos tf =
     \<lparr> frame_id = hdr_frame_id (header tf), parent_frame_id = None,
       transform = identity_transform,
       timestamp = nanos (sec (stamp (header tf))) (nsec (stamp (header tf))) \<rparr>"

text \<open>
  The invariant of the store, relative to the set \<open>named\<close> of frames that some update
  has named as a child: keys are unique, every node sits under its own \<open>frame_id\<close>, and
  a node whose frame was never a child is a root with the identity transform.
\<close>

definition store_inv :: "string set \<Rightarrow> TFTree \<Rightarrow> bool" where
  "store_inv named t \<longleftrightarrow> distinct (map fst t) \<and>
     (\<forall>(k, n) \<in> set t. frame_id n = k \<and>
        (k \<notin> named \<longrightarrow> parent_frame_id n = None \<and> transform n = identity_transform))"

text \<open>
  Two frames are linked when the node stored under one names the other as its parent;
  they are connected when a chain of links joins them (the graph read as undirected).
\<close>

definition linked :: "TFTree \<Rightarrow> string \<Rightarrow> string \<Rightarrow> bool" where
  "linked tfTree a b \<longleftrightarrow>
     (\<exists>n. tree_get tfTree b = Some n \<and> parent_frame_id n = Some a)
   \<or> (\<exists>n. tree_get tfTree a = Some n \<and> parent_frame_id n = Some b)"

definition frames_connected :: "TFTree \<Rightarrow> string \<Rightarrow> string \<Rightarrow> bool" where
  "frames_connected tfTree = (linked tfTree)\<^sup>*\<^sup>*"

text \<open>The pairs \<^verbatim>\<open>(path[i], path[i + 1])\<close> that the loop of \<open>computeTransform\<close> visits.\<close>

fun consecutive :: "'a list \<Rightarrow> ('a \<times> 'a) list" where
  "consecutive (a # b # rest) = (a, b) # consecutive (b # rest)"
| "consecutive path = []"

text \<open>
  The same \<^verbatim>\<open>while\<close> loop with a bound on the number of iterations: \<open>None\<close> when the
  bound is used up before the loop returns. Beside the returned path it records the
  frames that were expanded (added to \<open>visited\<close>), in order.
\<close>

fun bfs_run ::
  "nat \<Rightarrow> TFTree \<Rightarrow> string \<Rightarrow> string set \<Rightarrow> (string \<times> string list) list
     \<Rightarrow> (string list \<times> string list) option"
where
  "bfs_run 0 tree targetFrame visited queue = None"
| "bfs_run (Suc fuel) tree targetFrame visited [] = Some ([], [])"
| "bfs_run (Suc fuel) tree targetFrame visited ((frame, path) # queue) =
     (if frame = targetFrame then Some (path, [])
      else if frame \<in> visited then bfs_run fuel tree targetFrame visited queue
      else map_option (\<lambda>(result, expanded). (result, frame # expanded))
             (bfs_run fuel tree targetFrame (insert frame visited)
                (queue @ push_all tree frame path (insert frame visited))))"

text \<open>
  One instance of the matrix operations, for the concrete checks: a matrix is kept as
  the translation and unit quaternion of a rigid transform, and two of them are
  multiplied with the quaternion product. Every theorem below holds for all instances.
\<close>

definition qmul :: "Quaternion \<Rightarrow> Quaternion \<Rightarrow> Quaternion" where
  "qmul p q =
     \<lparr> qx = qw p * qx q + qx p * qw q + qy p * qz q - qz p * qy q,
       qy = qw p * qy q - qx p * qz q + qy p * qw q + qz p * qx q,
       qz = qw p * qz q + qx p * qy q - qy p * qx q + qz p * qw q,
       qw = qw p * qw q - qx p * qx q - qy p * qy q - qz p * qz q \<rparr>"

definition qconj :: "Quaternion \<Rightarrow> Quaternion" where
  "qconj q = \<lparr> qx = - qx q, qy = - qy q, qz = - qz q, qw = qw q \<rparr>"

definition qrotate :: "Quaternion \<Rightarrow> Vector3 \<Rightarrow> Vector3" where
  "qrotate q v =
     (let r = qmul (qmul q \<lparr> qx = vx v, qy = vy v, qz = vz v, qw = 0 \<rparr>) (qconj q)
      in \<lparr> vx = qx r, vy = qy r, vz = qz r \<rparr>)"

definition rigid_ops :: "Transform Matrix4_ops" where
  "rigid_ops =
     \<lparr> m4_identity = identity_transform,
       m4_compose = (\<lambda>position quaternion scale.
          \<lparr> translation = position, rotation = quaternion \<rparr>),
       m4_invert = (\<lambda>m.
          (let r = qrotate (qconj (rotation m)) (translation m)
           in \<lparr> translation = \<lparr> vx = - vx r, vy = - vy r, vz = - vz r \<rparr>,
                rotation = qconj (rotation m) \<rparr>)),
       m4_multiply = (\<lambda>a b.
          (let r = qrotate (rotation a) (translation b)
           in \<lparr> translation = \<lparr> vx = vx (translation a) + vx r,
                                 vy = vy (translation a) + vy r,
                                 vz = vz (translation a) + vz r \<rparr>,
                rotation = qmul (rotation a) (rotation b) \<rparr>)),
       m4_decompose = (\<lambda>m. (translation m, rotation m, \<lparr> vx = 1, vy = 1, vz = 1 \<rparr>)) \<rparr>"

text \<open>
  One instance of the timestamp computation, for the concrete checks: the exact value.
  Double precision returns it whenever the product and the sum are integers below
  \<open>2 ^ 53\<close>, as for the stamp \<open>sec = 0\<close>, \<open>nsec = 100\<close> of the concrete inputs. Every
  theorem below holds for all instances.
\<close>

definition exact_nanos :: "real \<Rightarrow> real \<Rightarrow> real" where
  "exact_nanos s n = s * 1000000000 + n"

text \<open>
  Concrete inputs: an update of \<open>child\<close> under \<open>parent\<close> with translation \<open>(1, 0, 0)\<close>,
  unit rotation and timestamp 100; a message event holding given transforms; and the
  graphs of the specification's scenarios.
\<close>

definition edge_update :: "string \<Rightarrow> string \<Rightarrow> TransformStamped" where
  "edge_update child parent =
     \<lparr> header = \<lparr> hdr_frame_id = parent, stamp = \<lparr> sec = 0, nsec = 100 \<rparr> \<rparr>,
       child_frame_id = child,
       ts_transform = \<lparr> translation = \<lparr> vx = 1, vy = 0, vz = 0 \<rparr>,
                        rotation = \<lparr> qx = 0, qy = 0, qz = 0, qw = 1 \<rparr> \<rparr> \<rparr>"

definition tf_event :: "TransformStamped list \<Rightarrow> TFMessageEvent" where
  "tf_event tfs = \<lparr> message = \<lparr> transforms = tfs \<rparr> \<rparr>"

definition sensor_tree :: TFTree where
  "sensor_tree = updateTFTree exact_nanos [tf_event [edge_update ''sensor'' ''world'']] []"

definition disjoint_tree :: TFTree where
  "disjoint_tree =
     updateTFTree exact_nanos
       [tf_event [edge_update ''p'' ''q'', edge_update ''r'' ''s'']] []"

definition chain_batches :: "TFMessageEvent list list" where
  "chain_batches = [[tf_event [edge_update ''b'' ''a'']], [tf_event [edge_update ''c'' ''b'']]]"



section \<open>Properties of the store\<close>

subsection \<open>The insertion-ordered map\<close>

lemma map_of_tree_set: "map_of (tree_set k v t) = (map_of t)(k \<mapsto> v)"
  by (induction k v t rule: tree_set.induct) (auto simp: fun_eq_iff)

lemma keys_tree_set: "fst ` set (tree_set k v t) = insert k (fst ` set t)"
  by (induction k v t rule: tree_set.induct) (simp_all add: insert_commute)

lemma entries_tree_set: "set (tree_set k v t) \<subseteq> insert (k, v) (set t)"
  by (induction k v t rule: tree_set.induct) (auto split: if_splits)

lemma distinct_tree_set: "distinct (map fst t) \<Longrightarrow> distinct (map fst (tree_set k v t))"
  by (induction k v t rule: tree_set.induct)
     (auto simp: keys_tree_set dest!: subsetD [OF entries_tree_set])

lemma tree_set_same: "map_of t k = Some v \<Longrightarrow> tree_set k v t = t"
  by (induction k v t rule: tree_set.induct) (auto split: if_splits)

lemma tree_has_dom: "tree_has t k \<longleftrightarrow> k \<in> dom (map_of t)"
  by (simp add: tree_has_def dom_map_of_conv_image_fst)

subsection \<open>One entry, and a batch as a fold over its entries\<close>

lemma update_entry_alt:
  "update_entry nanos tf t =
     (if tree_has (tree_set (child_frame_id tf) (child_node nanos tf) t)
           (hdr_frame_id (header tf))
      then tree_set (child_frame_id tf) (child_node nanos tf) t
      else tree_set (hdr_frame_id (header tf)) (root_node nanos tf)
             (tree_set (child_frame_id tf) (child_node nanos tf) t))"
  by (simp add: update_entry_def Let_def child_node_def root_node_def)

lemma updateTFTree_fold:
  "updateTFTree nanos msgs t = fold (update_entry nanos) (batch_entries msgs) t"
  by (induction msgs arbitrary: t) (simp_all add: updateTFTree_def batch_entries_def)

lemma fold_updateTFTree:
  "fold (updateTFTree nanos) batches t
     = fold (update_entry nanos) (concat (map batch_entries batches)) t"
  by (induction batches arbitrary: t) (simp_all add: updateTFTree_fold)

lemma update_entry_refines:
  "map_of (update_entry nanos tf t) = apply_update_spec (update_of nanos tf) (map_of t)"
  by (simp add: update_entry_alt apply_update_spec_def update_of_def Let_def tree_has_dom
      map_of_tree_set child_node_def root_node_def)

lemma fold_update_entry_refines:
  "map_of (fold (update_entry nanos) es t)
     = apply_updates_spec (map (update_of nanos) es) (map_of t)"
  by (induction es arbitrary: t) (simp_all add: update_entry_refines)

lemma update_entry_keys:
  "fst ` set (update_entry nanos tf t)
     = insert (child_frame_id tf) (insert (hdr_frame_id (header tf)) (fst ` set t))"
  by (auto simp: update_entry_alt keys_tree_set tree_has_def)

lemma fold_update_entry_keys:
  "fst ` set (fold (update_entry nanos) es t)
     = child_frame_id ` set es \<union> (\<lambda>tf. hdr_frame_id (header tf)) ` set es \<union> fst ` set t"
  by (induction es arbitrary: t) (auto simp: update_entry_keys)

lemma update_entry_idem:
  "update_entry nanos tf (update_entry nanos tf t) = update_entry nanos tf t"
proof -
  let ?c = "child_frame_id tf" and ?p = "hdr_frame_id (header tf)"
  let ?t1 = "tree_set ?c (child_node nanos tf) t"
  show ?thesis
  proof (cases "tree_has ?t1 ?p")
    case True
    then have u: "update_entry nanos tf t = ?t1" by (simp add: update_entry_alt)
    have "tree_set ?c (child_node nanos tf) ?t1 = ?t1"
      by (rule tree_set_same) (simp add: map_of_tree_set)
    with True show ?thesis unfolding u by (simp add: update_entry_alt)
  next
    case False
    then have ne: "?p \<noteq> ?c" by (auto simp: tree_has_def keys_tree_set)
    from False have u: "update_entry nanos tf t = tree_set ?p (root_node nanos tf) ?t1"
      by (simp add: update_entry_alt)
    have s: "tree_set ?c (child_node nanos tf) (tree_set ?p (root_node nanos tf) ?t1)
           = tree_set ?p (root_node nanos tf) ?t1"
      by (rule tree_set_same) (use ne in \<open>simp add: map_of_tree_set\<close>)
    have h: "tree_has (tree_set ?p (root_node nanos tf) ?t1) ?p"
      by (simp add: tree_has_def keys_tree_set)
    show ?thesis unfolding u by (subst update_entry_alt) (simp only: s h if_True)
  qed
qed

lemma update_entry_child:
  "tree_get (update_entry nanos tf t) (child_frame_id tf) = Some (child_node nanos tf)"
  by (simp add: update_entry_alt tree_get_def map_of_tree_set tree_has_def keys_tree_set)

subsection \<open>The concrete graphs\<close>

lemma sensor_tree_eq:
  "sensor_tree = [(''sensor'', child_node exact_nanos (edge_update ''sensor'' ''world'')),
                  (''world'', root_node exact_nanos (edge_update ''sensor'' ''world''))]"
  by (simp add: sensor_tree_def updateTFTree_fold batch_entries_def tf_event_def
      update_entry_alt tree_has_def edge_update_def)

lemma disjoint_tree_eq:
  "disjoint_tree = [(''p'', child_node exact_nanos (edge_update ''p'' ''q'')),
                    (''q'', root_node exact_nanos (edge_update ''p'' ''q'')),
                    (''r'', child_node exact_nanos (edge_update ''r'' ''s'')),
                    (''s'', root_node exact_nanos (edge_update ''r'' ''s''))]"
  by (simp add: disjoint_tree_def updateTFTree_fold batch_entries_def tf_event_def
      update_entry_alt tree_has_def edge_update_def)

lemma chain_tree_eq:
  "fold (updateTFTree exact_nanos) chain_batches [] =
     [(''b'', child_node exact_nanos (edge_update ''b'' ''a'')),
      (''a'', root_node exact_nanos (edge_update ''b'' ''a'')),
      (''c'', child_node exact_nanos (edge_update ''c'' ''b''))]"
  by (simp add: chain_batches_def updateTFTree_fold batch_entries_def tf_event_def
      update_entry_alt tree_has_def edge_update_def)


subsection \<open>Batches against the contract\<close>

text \<open>
  Claim C4. For every batch and every prior graph, \<open>updateTFTree\<close> does what the
  contract says on the entries of the batch taken in input order: each entry overwrites
  the child's node with the given parent, transform and timestamp, and the parent is
  inserted as a root node with the identity transform and the same timestamp exactly
  when it is not a key at that point (the test follows the child's write, so an entry
  whose parent is its own child inserts nothing). The timestamp of an entry is the
  number \<open>nanos sec nsec\<close> that line 192 computes from its stamp, whatever the
  double-precision arithmetic returns. No entry is rejected: after the batch the child
  and the parent of every entry are keys of the graph.
\<close>

theorem updateTFTree_refines_contract:
  "map_of (updateTFTree nanos msgs t)
     = apply_updates_spec (map (update_of nanos) (batch_entries msgs)) (map_of t)
   \<and> (\<forall>tf \<in> set (batch_entries msgs).
         tree_has (updateTFTree nanos msgs t) (child_frame_id tf)
       \<and> tree_has (updateTFTree nanos msgs t) (hdr_frame_id (header tf)))"
  by (simp add: updateTFTree_fold fold_update_entry_refines tree_has_def fold_update_entry_keys)

theorem updateTFTree_refines_contract_witness:
  "map_of (updateTFTree exact_nanos [tf_event [edge_update ''sensor'' ''world'']] [])
     = apply_updates_spec
         [(''sensor'', ''world'',
           \<lparr> translation = \<lparr> vx = 1, vy = 0, vz = 0 \<rparr>,
             rotation = \<lparr> qx = 0, qy = 0, qz = 0, qw = 1 \<rparr> \<rparr>, 100)] Map.empty
   \<and> tree_has (updateTFTree exact_nanos [tf_event [edge_update ''sensor'' ''world'']] [])
         ''sensor''
   \<and> tree_has (updateTFTree exact_nanos [tf_event [edge_update ''sensor'' ''world'']] [])
         ''world''"
  using updateTFTree_refines_contract
    [of exact_nanos "[tf_event [edge_update ''sensor'' ''world'']]" "[]"]
  by (simp add: batch_entries_def tf_event_def update_of_def edge_update_def exact_nanos_def)

text \<open>
  Claim C7. Applying the same update entry twice, in one batch (in one message or in
  two) or in two successive batches, gives exactly the graph that applying it once
  gives, and the child's node then holds the parent and transform of that entry and
  the timestamp \<open>nanos sec nsec\<close> computed from its stamp.
\<close>

theorem updateTFTree_same_entry_twice:
  "updateTFTree nanos [tf_event [tf, tf]] t = updateTFTree nanos [tf_event [tf]] t
   \<and> updateTFTree nanos [tf_event [tf], tf_event [tf]] t
       = updateTFTree nanos [tf_event [tf]] t
   \<and> updateTFTree nanos [tf_event [tf]] (updateTFTree nanos [tf_event [tf]] t)
       = updateTFTree nanos [tf_event [tf]] t
   \<and> tree_get (updateTFTree nanos [tf_event [tf]] t) (child_frame_id tf)
       = Some \<lparr> frame_id = child_frame_id tf,
                parent_frame_id = Some (hdr_frame_id (header tf)),
                transform = ts_transform tf,
                timestamp = nanos (sec (stamp (header tf))) (nsec (stamp (header tf))) \<rparr>"
  by (simp add: updateTFTree_fold batch_entries_def tf_event_def update_entry_idem
      update_entry_child child_node_def)

text \<open>
  Claim C8. Every frame identifier that is a key of the graph before \<open>updateTFTree\<close>
  is a key afterwards, for every graph and every batch: the store never removes a node.
\<close>

theorem updateTFTree_keeps_frames:
  "tree_has t k \<Longrightarrow> tree_has (updateTFTree nanos msgs t) k"
  by (simp add: updateTFTree_fold tree_has_def fold_update_entry_keys)

theorem updateTFTree_keeps_frames_witness:
  "tree_has sensor_tree ''world''
   \<and> tree_has (updateTFTree exact_nanos [tf_event [edge_update ''tool'' ''sensor'']]
         sensor_tree) ''world''"
proof -
  have h: "tree_has sensor_tree ''world''"
    by (simp add: sensor_tree_eq tree_has_def)
  from h updateTFTree_keeps_frames [OF h] show ?thesis by simp
qed

subsection \<open>The invariant of the store\<close>

lemma store_inv_tree_set:
  assumes "store_inv named t" "frame_id v = k"
    "k \<notin> named' \<longrightarrow> parent_frame_id v = None \<and> transform v = identity_transform"
    "named \<subseteq> named'"
  shows "store_inv named' (tree_set k v t)"
  using assms unfolding store_inv_def
  by (auto simp: distinct_tree_set dest!: subsetD [OF entries_tree_set])

lemma store_inv_update_entry:
  assumes "store_inv named t"
  shows "store_inv (insert (child_frame_id tf) named) (update_entry nanos tf t)"
proof -
  let ?named = "insert (child_frame_id tf) named"
  have 1: "store_inv ?named (tree_set (child_frame_id tf) (child_node nanos tf) t)"
    by (rule store_inv_tree_set [OF assms]) (auto simp: child_node_def)
  have 2: "store_inv ?named (tree_set (hdr_frame_id (header tf)) (root_node nanos tf)
             (tree_set (child_frame_id tf) (child_node nanos tf) t))"
    by (rule store_inv_tree_set [OF 1]) (auto simp: root_node_def)
  from 1 2 show ?thesis by (simp add: update_entry_alt)
qed

lemma store_inv_fold:
  "store_inv named t \<Longrightarrow>
     store_inv (named \<union> child_frame_id ` set es) (fold (update_entry nanos) es t)"
proof (induction es arbitrary: named t)
  case Nil
  then show ?case by simp
next
  case (Cons e es)
  from Cons.IH [OF store_inv_update_entry [OF Cons.prems, where tf = e and nanos = nanos]]
  show ?case by (simp add: Un_commute insert_commute)
qed

lemma store_inv_reachable:
  "store_inv (child_frame_id ` set (concat (map batch_entries batches)))
     (fold (updateTFTree nanos) batches [])"
proof -
  have "store_inv {} []" by (simp add: store_inv_def)
  from store_inv_fold
    [OF this, where es = "concat (map batch_entries batches)" and nanos = nanos]
  show ?thesis unfolding fold_updateTFTree by simp
qed

lemma store_inv_get: "store_inv named t \<Longrightarrow> (k, n) \<in> set t \<Longrightarrow> tree_get t k = Some n"
  by (simp add: store_inv_def tree_get_def)

text \<open>
  Claim C10. After any sequence of \<open>updateTFTree\<close> calls that starts from the empty
  graph, the node stored under a key has that key as its \<open>frame_id\<close>; and a node
  whose frame no update so far has named as a child (it entered the graph as a parent
  placeholder only) has no \<open>parent_frame_id\<close> and the identity transform.
\<close>

theorem store_keys_and_placeholders:
  "tree_get (fold (updateTFTree nanos) batches []) k = Some n \<Longrightarrow>
     frame_id n = k \<and>
     (k \<notin> child_frame_id ` set (concat (map batch_entries batches)) \<longrightarrow>
        parent_frame_id n = None \<and> transform n = identity_transform)"
  using store_inv_reachable [where batches = batches and nanos = nanos]
  unfolding store_inv_def tree_get_def
  by (auto dest!: map_of_SomeD)

theorem store_keys_and_placeholders_witness:
  "tree_get (fold (updateTFTree exact_nanos) chain_batches []) ''a''
     = Some (root_node exact_nanos (edge_update ''b'' ''a''))
   \<and> frame_id (root_node exact_nanos (edge_update ''b'' ''a'')) = ''a''
   \<and> ''a'' \<notin> child_frame_id ` set (concat (map batch_entries chain_batches))
   \<and> parent_frame_id (root_node exact_nanos (edge_update ''b'' ''a'')) = None
   \<and> transform (root_node exact_nanos (edge_update ''b'' ''a'')) = identity_transform"
proof -
  have g: "tree_get (fold (updateTFTree exact_nanos) chain_batches []) ''a''
      = Some (root_node exact_nanos (edge_update ''b'' ''a''))"
    by (simp add: chain_tree_eq tree_get_def)
  have c: "''a'' \<notin> child_frame_id ` set (concat (map batch_entries chain_batches))"
    by (simp add: chain_batches_def batch_entries_def tf_event_def edge_update_def)
  from store_keys_and_placeholders [OF g] g c show ?thesis by blast
qed


section \<open>Properties of the resolver and the composer\<close>

subsection \<open>An invariant of the queue\<close>

lemma push_all_mem:
  "fp \<in> set (push_all tree frame path visited)
     \<longleftrightarrow> (\<exists>entry \<in> set tree. fp \<in> set (push_node frame path visited entry))"
  by (auto simp: push_all_def)

text \<open>
  A property \<open>P frame path\<close> of queue entries that every push preserves holds of the
  entry the loop returns.
\<close>

lemma bfs_result_inv:
  "\<lbrakk>\<forall>frame path visited entry fp.
      P frame path \<and> entry \<in> set tree \<and> frame \<in> visited
      \<and> fp \<in> set (push_node frame path visited entry) \<longrightarrow> P (fst fp) (snd fp);
    \<forall>(f, p) \<in> set queue. P f p\<rbrakk> \<Longrightarrow>
     bfs tree targetFrame visited queue = []
     \<or> P targetFrame (bfs tree targetFrame visited queue)"
proof (induction tree targetFrame visited queue rule: bfs.induct)
  case (1 tree targetFrame visited)
  then show ?case by simp
next
  case (2 tree targetFrame visited frame path queue)
  note step = "2.prems"(1) and inv = "2.prems"(2)
  show ?case
  proof (cases "frame = targetFrame")
    case True
    with inv show ?thesis by simp
  next
    case ne: False
    show ?thesis
    proof (cases "frame \<in> visited")
      case True
      with ne "2.IH"(1) [OF ne True step] inv show ?thesis by simp
    next
      case False
      have here: "P frame path" using inv by simp
      have "P f p" if "(f, p) \<in> set (push_all tree frame path (insert frame visited))" for f p
      proof -
        from that obtain entry where "entry \<in> set tree"
          "(f, p) \<in> set (push_node frame path (insert frame visited) entry)"
          by (auto simp: push_all_mem)
        moreover have "frame \<in> insert frame visited" by simp
        ultimately have "P (fst (f, p)) (snd (f, p))" using here step by blast
        then show ?thesis by simp
      qed
      then have "\<forall>(f, p) \<in> set (queue @ push_all tree frame path (insert frame visited)). P f p"
        using inv by auto
      with ne False "2.IH"(2) [OF ne False step] show ?thesis by simp
    qed
  qed
qed

lemma findTransformPath_ends:
  assumes "sourceFrame \<noteq> targetFrame" "findTransformPath t sourceFrame targetFrame \<noteq> []"
  shows "hd (findTransformPath t sourceFrame targetFrame) = sourceFrame
       \<and> last (findTransformPath t sourceFrame targetFrame) = targetFrame"
proof -
  let ?P = "\<lambda>f p. p \<noteq> [] \<and> hd p = sourceFrame \<and> last p = f"
  have "bfs t targetFrame {} [(sourceFrame, [sourceFrame])] = []
      \<or> ?P targetFrame (bfs t targetFrame {} [(sourceFrame, [sourceFrame])])"
    by (rule bfs_result_inv [where P = ?P])
       (auto simp: push_node_def Let_def split: if_splits)
  with assms show ?thesis by (simp add: findTransformPath_def)
qed

subsection \<open>Same frame\<close>

text \<open>
  Claim C3. For every frame \<open>f\<close> and every graph, \<open>computeTransform\<close> of \<open>f\<close> and
  \<open>f\<close> is the identity transform (zero translation, unit rotation) and
  \<open>findTransformPath\<close> of \<open>f\<close> and \<open>f\<close> is the one-element path \<open>[f]\<close>; neither
  result depends on the graph or on the matrix operations.
\<close>

theorem same_frame_identity:
  "computeTransform ops tfTree f f
     = Some \<lparr> translation = \<lparr> vx = 0, vy = 0, vz = 0 \<rparr>,
              rotation = \<lparr> qx = 0, qy = 0, qz = 0, qw = 1 \<rparr> \<rparr>
   \<and> findTransformPath tfTree f f = [f]"
  by (simp add: computeTransform_def findTransformPath_def identity_transform_def)

subsection \<open>Frames that are not connected\<close>

lemma edge_transform_linked: "edge_transform t a b = Some x \<Longrightarrow> linked t a b"
  by (auto simp: edge_transform_def linked_def split: option.splits if_splits)

lemma walk_path_connected:
  "walk_path ops t m p = Some r \<Longrightarrow> p \<noteq> [] \<Longrightarrow> frames_connected t (hd p) (last p)"
proof (induction ops t m p rule: walk_path.induct)
  case (1 ops tfTree resultTransform fromFrame toFrame rest)
  from "1.prems"(1) obtain tf inverted where
    e: "edge_transform tfTree fromFrame toFrame = Some (tf, inverted)"
    by (auto split: option.splits)
  with "1.prems"(1) have "frames_connected tfTree (hd (toFrame # rest)) (last (toFrame # rest))"
    using "1.IH" [OF e refl refl refl] by (simp add: Let_def)
  moreover have "linked tfTree fromFrame toFrame" using e by (rule edge_transform_linked)
  ultimately show ?case by (simp add: frames_connected_def)
qed (simp_all add: frames_connected_def)

text \<open>
  Claim C5. For every graph and every two distinct frames that no chain of links
  connects (a frame that is not in the graph has no link), \<open>computeTransform\<close>
  returns the absent result \<open>None\<close>. The source signals it by \<^verbatim>\<open>return []\<close> (line 257)
  and \<^verbatim>\<open>return null\<close> (lines 273 and 303), not by an exception.
\<close>

theorem unconnected_frames_absent:
  assumes "sourceFrame \<noteq> targetFrame" "\<not> frames_connected tfTree sourceFrame targetFrame"
  shows "computeTransform ops tfTree sourceFrame targetFrame = None"
proof (rule ccontr)
  assume "computeTransform ops tfTree sourceFrame targetFrame \<noteq> None"
  then obtain r where
    len: "\<not> length (findTransformPath tfTree sourceFrame targetFrame) < 2" and
    w: "walk_path ops tfTree (m4_identity ops)
          (findTransformPath tfTree sourceFrame targetFrame) = Some r"
    using assms(1)
    by (auto simp: computeTransform_def Let_def split: if_splits option.splits)
  from len have ne: "findTransformPath tfTree sourceFrame targetFrame \<noteq> []" by auto
  from walk_path_connected [OF w ne] findTransformPath_ends [OF assms(1) ne] assms(2)
  show False by simp
qed

lemma disjoint_tree_links:
  "linked disjoint_tree a b \<Longrightarrow> a \<in> {''p'', ''q''} \<Longrightarrow> b \<in> {''p'', ''q''}"
  by (auto simp: linked_def tree_get_def disjoint_tree_eq child_node_def root_node_def
      edge_update_def split: if_splits)

lemma disjoint_tree_component:
  "frames_connected disjoint_tree a b \<Longrightarrow> a \<in> {''p'', ''q''} \<Longrightarrow> b \<in> {''p'', ''q''}"
  unfolding frames_connected_def
  by (induction rule: rtranclp_induct) (auto dest: disjoint_tree_links)

theorem unconnected_frames_absent_witness:
  "''q'' \<noteq> ''s'' \<and> \<not> frames_connected disjoint_tree ''q'' ''s''
   \<and> computeTransform rigid_ops disjoint_tree ''q'' ''s'' = None"
proof -
  have ne: "''q'' \<noteq> ''s''" by simp
  have nc: "\<not> frames_connected disjoint_tree ''q'' ''s''"
    using disjoint_tree_component [of "''q''" "''s''"] by auto
  from unconnected_frames_absent [OF ne nc, of rigid_ops] ne nc show ?thesis by simp
qed


subsection \<open>Termination of the search\<close>

text \<open>
  Claim C6. For every graph (an association list is finite; its parent pointers may
  form cycles), every target and every loop state, the breadth-first loop returns:
  some number of iterations is enough for the bounded loop to return, with the result
  of \<open>bfs\<close>; and the frames the loop expanded are pairwise distinct and were not
  visited before, so no frame is expanded twice.
\<close>

theorem bfs_terminates:
  "\<exists>fuel expanded.
     bfs_run fuel tree targetFrame visited queue
       = Some (bfs tree targetFrame visited queue, expanded)
     \<and> distinct expanded \<and> set expanded \<inter> visited = {}"
proof (induction tree targetFrame visited queue rule: bfs.induct)
  case (1 tree targetFrame visited)
  have "bfs_run (Suc 0) tree targetFrame visited [] = Some (bfs tree targetFrame visited [], [])"
    by simp
  then show ?case by fastforce
next
  case (2 tree targetFrame visited frame path queue)
  show ?case
  proof (cases "frame = targetFrame")
    case True
    then have "bfs_run (Suc 0) tree targetFrame visited ((frame, path) # queue)
        = Some (bfs tree targetFrame visited ((frame, path) # queue), [])" by simp
    then show ?thesis by fastforce
  next
    case ne: False
    show ?thesis
    proof (cases "frame \<in> visited")
      case True
      from "2.IH"(1) [OF ne True] obtain fuel expanded where
        "bfs_run fuel tree targetFrame visited queue
           = Some (bfs tree targetFrame visited queue, expanded)"
        "distinct expanded" "set expanded \<inter> visited = {}" by blast
      with ne True have "bfs_run (Suc fuel) tree targetFrame visited ((frame, path) # queue)
           = Some (bfs tree targetFrame visited ((frame, path) # queue), expanded)
         \<and> distinct expanded \<and> set expanded \<inter> visited = {}" by simp
      then show ?thesis by blast
    next
      case False
      from "2.IH"(2) [OF ne False] obtain fuel expanded where
        r: "bfs_run fuel tree targetFrame (insert frame visited)
             (queue @ push_all tree frame path (insert frame visited))
           = Some (bfs tree targetFrame (insert frame visited)
               (queue @ push_all tree frame path (insert frame visited)), expanded)"
        and d: "distinct expanded" "set expanded \<inter> insert frame visited = {}" by blast
      from ne False r have "bfs_run (Suc fuel) tree targetFrame visited ((frame, path) # queue)
           = Some (bfs tree targetFrame visited ((frame, path) # queue), frame # expanded)"
        by simp
      moreover from d False have "distinct (frame # expanded)"
        "set (frame # expanded) \<inter> visited = {}" by auto
      ultimately show ?thesis by blast
    qed
  qed
qed

subsection \<open>Paths go from parent to child\<close>

lemma consecutive_snoc: "p \<noteq> [] \<Longrightarrow> consecutive (p @ [k]) = consecutive p @ [(last p, k)]"
  by (induction p rule: consecutive.induct) auto

text \<open>
  On a graph of the store the second test of the callback (line 251) never holds: it
  asks for a node stored under its own parent's name whose \<open>frame_id\<close> is the dequeued
  frame, and a node's key is its \<open>frame_id\<close>, so that node would be the dequeued frame
  itself, which is visited. Only children are pushed.
\<close>

lemma push_node_on_store:
  assumes "store_inv named t" "(k, n) \<in> set t" "frame \<in> visited"
  shows "push_node frame path visited (k, n) =
     (if parent_frame_id n = Some frame \<and> k \<notin> visited then [(k, path @ [k])] else [])"
proof -
  from assms(1,2) have "frame_id n = k" by (auto simp: store_inv_def)
  with assms(3) show ?thesis by (auto simp: push_node_def Let_def)
qed

lemma findTransformPath_descends:
  assumes inv: "store_inv named t" and ne: "sourceFrame \<noteq> targetFrame"
  shows "\<forall>(a, b) \<in> set (consecutive (findTransformPath t sourceFrame targetFrame)).
           \<exists>n. tree_get t b = Some n \<and> parent_frame_id n = Some a"
proof -
  let ?E = "\<lambda>a b. \<exists>n. tree_get t b = Some n \<and> parent_frame_id n = Some a"
  let ?P = "\<lambda>f p. p \<noteq> [] \<and> last p = f \<and> (\<forall>(a, b) \<in> set (consecutive p). ?E a b)"
  have step: "\<forall>frame path visited entry fp.
      ?P frame path \<and> entry \<in> set t \<and> frame \<in> visited
      \<and> fp \<in> set (push_node frame path visited entry) \<longrightarrow> ?P (fst fp) (snd fp)"
  proof (intro allI impI, elim conjE)
    fix frame path visited entry fp
    assume p: "path \<noteq> []" "last path = frame"
      "\<forall>(a, b) \<in> set (consecutive path). ?E a b"
      and e: "entry \<in> set t" and v: "frame \<in> visited"
      and m: "fp \<in> set (push_node frame path visited entry)"
    obtain k n where kn: "entry = (k, n)" by (cases entry)
    from inv e kn have get: "tree_get t k = Some n" by (simp add: store_inv_get)
    from m have "fp = (k, path @ [k])" "parent_frame_id n = Some frame"
      unfolding kn push_node_on_store [OF inv e [unfolded kn] v]
      by (auto split: if_splits)
    with p get show "?P (fst fp) (snd fp)" by (auto simp: consecutive_snoc)
  qed
  have "bfs t targetFrame {} [(sourceFrame, [sourceFrame])] = []
      \<or> ?P targetFrame (bfs t targetFrame {} [(sourceFrame, [sourceFrame])])"
    by (rule bfs_result_inv [where P = ?P, OF step]) simp
  with ne show ?thesis by (auto simp: findTransformPath_def)
qed

text \<open>
  Claim C9. On every graph that \<open>updateTFTree\<close> builds from the empty graph, the path
  that \<open>findTransformPath\<close> returns for distinct source and target is a descendant
  chain: for each consecutive pair \<open>(fromFrame, toFrame)\<close> the node stored under
  \<open>toFrame\<close> has \<open>fromFrame\<close> as its parent. So \<open>computeTransform\<close> finds every edge of
  the path by its first test, with \<^verbatim>\<open>inverse = false\<close>: the branch that inverts is not
  taken.
\<close>

theorem resolver_paths_descend:
  "sourceFrame \<noteq> targetFrame \<Longrightarrow>
   \<forall>(fromFrame, toFrame) \<in> set (consecutive
        (findTransformPath (fold (updateTFTree nanos) batches []) sourceFrame targetFrame)).
     (\<exists>toNode. tree_get (fold (updateTFTree nanos) batches []) toFrame = Some toNode
        \<and> parent_frame_id toNode = Some fromFrame)
   \<and> (\<exists>tf. edge_transform (fold (updateTFTree nanos) batches []) fromFrame toFrame
          = Some (tf, False))"
  using findTransformPath_descends
    [OF store_inv_reachable [where batches = batches and nanos = nanos],
     of sourceFrame targetFrame]
  by (fastforce simp: edge_transform_def)

lemma chain_path:
  "findTransformPath (fold (updateTFTree exact_nanos) chain_batches []) ''a'' ''c''
     = [''a'', ''b'', ''c'']"
  by (simp add: chain_tree_eq findTransformPath_def push_all_def push_node_def Let_def
      child_node_def root_node_def edge_update_def)

theorem resolver_paths_descend_witness:
  "''a'' \<noteq> ''c''
   \<and> findTransformPath (fold (updateTFTree exact_nanos) chain_batches []) ''a'' ''c''
       = [''a'', ''b'', ''c'']
   \<and> (\<exists>toNode. tree_get (fold (updateTFTree exact_nanos) chain_batches []) ''b'' = Some toNode
        \<and> parent_frame_id toNode = Some ''a'')
   \<and> (\<exists>tf. edge_transform (fold (updateTFTree exact_nanos) chain_batches []) ''a'' ''b''
          = Some (tf, False))
   \<and> (\<exists>toNode. tree_get (fold (updateTFTree exact_nanos) chain_batches []) ''c'' = Some toNode
        \<and> parent_frame_id toNode = Some ''b'')
   \<and> (\<exists>tf. edge_transform (fold (updateTFTree exact_nanos) chain_batches []) ''b'' ''c''
          = Some (tf, False))"
proof -
  have ne: "''a'' \<noteq> ''c''" by simp
  from resolver_paths_descend [OF ne, where batches = chain_batches and nanos = exact_nanos] ne
  show ?thesis
    unfolding chain_path by simp
qed


subsection \<open>From a child to its parent\<close>

lemma push_all_on_store:
  assumes "store_inv named t" "frame \<in> visited"
  shows "push_all t frame path visited =
     concat (map (\<lambda>(k, n). if parent_frame_id n = Some frame \<and> k \<notin> visited
                             then [(k, path @ [k])] else []) t)"
proof -
  have "map (push_node frame path visited) t =
      map (\<lambda>(k, n). if parent_frame_id n = Some frame \<and> k \<notin> visited
                      then [(k, path @ [k])] else []) t"
    by (rule map_cong [OF refl]) (auto simp: push_node_on_store [OF assms(1) _ assms(2)])
  then show ?thesis unfolding push_all_def by (rule arg_cong [where f = concat])
qed

lemma single_update_tree:
  "child_frame_id tf \<noteq> hdr_frame_id (header tf) \<Longrightarrow>
   updateTFTree nanos [tf_event [tf]] [] =
     [(child_frame_id tf, child_node nanos tf),
      (hdr_frame_id (header tf), root_node nanos tf)]"
  by (auto simp: updateTFTree_fold batch_entries_def tf_event_def update_entry_alt
      tree_has_def)

lemma single_update_path_back:
  assumes "child_frame_id tf \<noteq> hdr_frame_id (header tf)"
  shows "findTransformPath (updateTFTree nanos [tf_event [tf]] [])
           (child_frame_id tf) (hdr_frame_id (header tf)) = []"
  using assms assms [symmetric]
  by (simp add: single_update_tree findTransformPath_def push_all_def push_node_def Let_def
      child_node_def root_node_def)

lemma single_update_path_forward:
  assumes "child_frame_id tf \<noteq> hdr_frame_id (header tf)"
  shows "findTransformPath (updateTFTree nanos [tf_event [tf]] [])
           (hdr_frame_id (header tf)) (child_frame_id tf)
         = [hdr_frame_id (header tf), child_frame_id tf]"
  using assms assms [symmetric]
  by (simp add: single_update_tree findTransformPath_def push_all_def push_node_def Let_def
      child_node_def root_node_def)

text \<open>
  Parent to child, the direction \<open>updateSensorPosition\<close> asks for: the path has the one
  forward edge, and with exact rigid-transform arithmetic the scenario's update resolves
  to its own transform, as the specification says.
\<close>

lemma sensor_forward:
  "computeTransform rigid_ops sensor_tree ''world'' ''sensor''
     = Some \<lparr> translation = \<lparr> vx = 1, vy = 0, vz = 0 \<rparr>,
              rotation = \<lparr> qx = 0, qy = 0, qz = 0, qw = 1 \<rparr> \<rparr>"
proof -
  have p: "findTransformPath sensor_tree ''world'' ''sensor'' = [''world'', ''sensor'']"
    using single_update_path_forward [of "edge_update ''sensor'' ''world''" exact_nanos]
    by (simp add: sensor_tree_def edge_update_def)
  show ?thesis
    unfolding computeTransform_def p
    by (simp add: sensor_tree_eq edge_transform_def tree_get_def child_node_def
        root_node_def edge_update_def rigid_ops_def qrotate_def qmul_def qconj_def
        identity_transform_def Let_def)
qed

text \<open>
  Claim C1, where the code departs from it. After one update \<open>(child, parent, T, ts)\<close>
  on the empty graph with \<open>child \<noteq> parent\<close>, \<open>computeTransform\<close> from the child to
  the parent returns the absent result for every instance of the matrix operations;
  the claim says it returns \<open>invert(T)\<close>. The search from the child pushes nothing,
  since the test of line 251 for "this node is a parent of the current frame" compares
  the node's key with the node's own parent.
\<close>

theorem child_to_parent_absent:
  "child_frame_id tf \<noteq> hdr_frame_id (header tf) \<Longrightarrow>
   computeTransform ops (updateTFTree nanos [tf_event [tf]] [])
     (child_frame_id tf) (hdr_frame_id (header tf)) = None"
  by (simp add: computeTransform_def single_update_path_back)

theorem child_to_parent_absent_witness:
  "''sensor'' \<noteq> ''world''
   \<and> computeTransform rigid_ops
        (updateTFTree exact_nanos [tf_event [edge_update ''sensor'' ''world'']] [])
        ''sensor'' ''world''
      = None"
  using child_to_parent_absent [of "edge_update ''sensor'' ''world''" rigid_ops exact_nanos]
  by (simp add: edge_update_def)

text \<open>
  Claim C2, where the code departs from it. In the graph of the single update
  \<open>(sensor, world)\<close> the frames \<open>sensor\<close> and \<open>world\<close> are connected, and \<open>world\<close> is the
  parent of \<open>sensor\<close>; yet expanding \<open>sensor\<close> pushes no neighbour at all, and
  \<open>findTransformPath\<close> from \<open>sensor\<close> to \<open>world\<close> returns the empty path. The
  neighbours the search explores are the children only.
\<close>

theorem parent_not_a_neighbour:
  "frames_connected sensor_tree ''sensor'' ''world''
   \<and> (\<exists>n. tree_get sensor_tree ''sensor'' = Some n \<and> parent_frame_id n = Some ''world'')
   \<and> push_all sensor_tree ''sensor'' [''sensor''] {''sensor''} = []
   \<and> findTransformPath sensor_tree ''sensor'' ''world'' = []"
proof -
  have g: "tree_get sensor_tree ''sensor''
      = Some (child_node exact_nanos (edge_update ''sensor'' ''world''))"
    by (simp add: sensor_tree_eq tree_get_def)
  have par: "parent_frame_id (child_node exact_nanos (edge_update ''sensor'' ''world''))
      = Some ''world''"
    by (simp add: child_node_def edge_update_def)
  from g par have "linked sensor_tree ''sensor'' ''world''" by (simp add: linked_def)
  then have c: "frames_connected sensor_tree ''sensor'' ''world''" by (simp add: frames_connected_def)
  have p: "push_all sensor_tree ''sensor'' [''sensor''] {''sensor''} = []"
    by (simp add: sensor_tree_eq push_all_def push_node_def Let_def child_node_def
        root_node_def edge_update_def)
  have f: "findTransformPath sensor_tree ''sensor'' ''world'' = []"
    using single_update_path_back [of "edge_update ''sensor'' ''world''" exact_nanos]
    by (simp add: sensor_tree_def edge_update_def)
  from c g par p f show ?thesis by simp
qed

end
